theory Spec2Isabelle
  imports Complex_Main
begin

section \<open>Calendar dates of the store\<close>

text \<open>
  The columns \<open>start_date\<close>, \<open>end_date\<close> and \<open>next_occurrence\<close> of
  \<open>recurring_transactions\<close> are of the SQL type \<open>DATE\<close>: a day of the proleptic
  Gregorian calendar. A date is modelled by its civil fields; \<open>valid_date\<close> holds of the
  triples that name a day of the calendar, which are the only ones a \<open>DATE\<close> column
  accepts. Years count astronomically (the year 0 is 1 BC).
\<close>

datatype date = Date (year: int) (month: int) (day: int)

definition isleap :: "int \<Rightarrow> bool" where
  "isleap y = (y mod 4 = 0 \<and> (y mod 100 \<noteq> 0 \<or> y mod 400 = 0))"

definition days_in_month :: "int \<Rightarrow> int \<Rightarrow> int" where
  "days_in_month y m =
     (if m = 2 then (if isleap y then 29 else 28)
      else if m = 4 \<or> m = 6 \<or> m = 9 \<or> m = 11 then 30
      else 31)"


text \<open>The comparison of two dates (\<open><\<close> and \<open><=\<close> of SQL) is chronological.\<close>

definition date_less :: "date \<Rightarrow> date \<Rightarrow> bool" where
  "date_less a b =
     (year a < year b \<or>
      (year a = year b \<and> (month a < month b \<or> (month a = month b \<and> day a < day b))))"

definition date_le :: "date \<Rightarrow> date \<Rightarrow> bool" where
  "date_le a b = (date_less a b \<or> a = b)"

text \<open>The day after and the day before a date.\<close>

definition next_day :: "date \<Rightarrow> date" where
  "next_day d =
     (if day d < days_in_month (year d) (month d) then Date (year d) (month d) (day d + 1)
      else if month d < 12 then Date (year d) (month d + 1) 1
      else Date (year d + 1) 1 1)"

definition prev_day :: "date \<Rightarrow> date" where
  "prev_day d =
     (if 1 < day d then Date (year d) (month d) (day d - 1)
      else if 1 < month d then Date (year d) (month d - 1) (days_in_month (year d) (month d - 1))
      else Date (year d - 1) 12 31)"

text \<open>
  \<open>date + interval\<close> of SQL, for an interval of \<open>n\<close> days and for one of \<open>n\<close> months.
  Adding days moves along the calendar day by day (backwards for a negative \<open>n\<close>).
  Adding months moves the month field and keeps the day of the month, except that a day
  the target month does not have becomes the last day of that month. An interval of
  \<open>n\<close> weeks is one of \<open>7 * n\<close> days, and an interval of \<open>n\<close> years is one of
  \<open>12 * n\<close> months.
\<close>

definition add_days :: "date \<Rightarrow> int \<Rightarrow> date" where
  "add_days d n = (if 0 \<le> n then (next_day ^^ nat n) d else (prev_day ^^ nat (- n)) d)"

definition add_months :: "date \<Rightarrow> int \<Rightarrow> date" where
  "add_months d n =
     (let t = year d * 12 + (month d - 1) + n;
          y = t div 12;
          m = t mod 12 + 1
      in Date y m (min (day d) (days_in_month y m)))"

text \<open>
  The store adds an interval to a date as to a timestamp, and a timestamp lies between
  4714-11-24 BC and 294276-12-31: a sum outside raises the error
  \<open>datetime_field_overflow\<close> (\<open>timestamp out of range\<close>). An interval that the store
  refuses on input because a field of it does not fit 32 bits (seven times the weeks,
  twelve times the years) is so long that its sum with any date lies outside as well: in
  the model the check of the sum stands for both errors.
\<close>

definition min_date :: date where
  "min_date = Date (- 4713) 11 24"

definition max_date :: date where
  "max_date = Date 294276 12 31"

definition in_range :: "date \<Rightarrow> bool" where
  "in_range d = (date_le min_date d \<and> date_le d max_date)"

section \<open>The occurrence calculator\<close>

text \<open>The errors of the store and of the hook that the model tells apart.\<close>

datatype error =
    NotAuthenticated
  | CheckViolation
  | NumericValueOutOfRange
  | UniqueViolation
  | InvalidDatetime
  | DatetimeFieldOverflow

text \<open>
  \<open>public.calculate_next_occurrence(current_date, frequency, frequency_value)\<close> of the
  migration that creates \<open>recurring_transactions\<close>. Its first parameter is named
  \<open>current_date\<close>, which is a reserved word of SQL: as the statement is written the store
  refuses it, and it is accepted once the name is quoted. The body is then as written.
  In the four \<open>WHEN\<close> branches \<open>current_date\<close> stands in an SQL expression
  (\<open>current_date + (...)::INTERVAL\<close>), where it is the reserved word, the date of today;
  in the \<open>ELSE\<close> branch it is the whole operand of \<open>RETURN\<close>, where it is the parameter.
  So the function depends on \<open>today\<close>, and the four branches do not read the date they
  are passed.
\<close>

text \<open>
  \<open>plus_interval\<close> is the check that ends every sum of a date and an interval: the sum
  when it is in range, the error otherwise. \<open>today\<close> is \<open>CURRENT_DATE\<close>.
\<close>

definition plus_interval :: "date \<Rightarrow> error + date" where
  "plus_interval d = (if in_range d then Inr d else Inl DatetimeFieldOverflow)"

definition calculate_next_occurrence :: "date \<Rightarrow> date \<Rightarrow> string \<Rightarrow> int \<Rightarrow> error + date" where
  "calculate_next_occurrence today current_date frequency frequency_value =
     (if frequency = ''daily'' then plus_interval (add_days today frequency_value)
      else if frequency = ''weekly'' then plus_interval (add_days today (7 * frequency_value))
      else if frequency = ''monthly'' then plus_interval (add_months today frequency_value)
      else if frequency = ''yearly'' then plus_interval (add_months today (12 * frequency_value))
      else Inr current_date)"

section \<open>The tables\<close>

text \<open>
  A row of \<open>public.recurring_transactions\<close>, column by column. Identifiers (\<open>UUID\<close>) are
  strings, \<open>NUMERIC\<close> amounts are exact rationals, timestamps are integers, a nullable
  column is an \<open>option\<close>.
\<close>

record recurring_transaction =
  rt_id :: string
  rt_user_id :: string
  rt_name :: string
  rt_type :: string
  rt_amount :: rat
  rt_category :: string
  rt_description :: "string option"
  rt_frequency :: string
  rt_frequency_value :: int
  rt_start_date :: date
  rt_end_date :: "date option"
  rt_next_occurrence :: date
  rt_is_active :: bool
  rt_created_at :: int
  rt_updated_at :: int

text \<open>
  A row of \<open>public.transactions\<close>, with the six columns that the scan writes. The columns
  \<open>id\<close> and \<open>created_at\<close> take their defaults (\<open>gen_random_uuid()\<close>, \<open>now()\<close>) and are
  not read by any function modelled here.
\<close>

record transaction_row =
  tx_user_id :: string
  tx_type :: string
  tx_amount :: rat
  tx_category :: string
  tx_description :: string
  tx_date :: date

record database =
  public_recurring_transactions :: "recurring_transaction list"
  public_transactions :: "transaction_row list"

text \<open>
  \<open>transactions.amount\<close> is \<open>DECIMAL(10,2)\<close>, while \<open>recurring_transactions.amount\<close> is
  an unconstrained \<open>NUMERIC\<close>: a value written to \<open>transactions\<close> is rounded to two
  decimals (half away from zero) and rejected when it needs more than eight digits before
  the point.
\<close>

definition round_half_away :: "rat \<Rightarrow> int" where
  "round_half_away x = (if 0 \<le> x then \<lfloor>x + 1 / 2\<rfloor> else - \<lfloor>- x + 1 / 2\<rfloor>)"

definition decimal_10_2 :: "rat \<Rightarrow> error + rat" where
  "decimal_10_2 a =
     (let c = round_half_away (a * 100)
      in if 10 ^ 10 \<le> \<bar>c\<bar> then Inl NumericValueOutOfRange else Inr (of_int c / 100))"

text \<open>
  \<open>INSERT INTO public.transactions\<close>: the amount is coerced to the column type, and the
  \<open>CHECK\<close> on \<open>type\<close> is enforced. The other columns written are \<open>NOT NULL\<close>, and the
  values the scan writes to them are never null.
\<close>

definition checked_row :: "transaction_row \<Rightarrow> error + transaction_row" where
  "checked_row row =
     (case decimal_10_2 (tx_amount row) of
        Inl e \<Rightarrow> Inl e
      | Inr a \<Rightarrow>
          if tx_type row \<noteq> ''income'' \<and> tx_type row \<noteq> ''expense'' then Inl CheckViolation
          else Inr (row\<lparr>tx_amount := a\<rparr>))"

definition insert_transaction :: "database \<Rightarrow> transaction_row \<Rightarrow> error + database" where
  "insert_transaction db row =
     (case checked_row row of
        Inl e \<Rightarrow> Inl e
      | Inr stored \<Rightarrow> Inr (db\<lparr>public_transactions := public_transactions db @ [stored]\<rparr>))"

section \<open>The due-template scan\<close>

text \<open>
  The \<open>WHERE\<close> clause of the query that \<open>process_recurring_transactions\<close> loops over;
  \<open>today\<close> is \<open>CURRENT_DATE\<close>.
\<close>

definition is_due :: "date \<Rightarrow> recurring_transaction \<Rightarrow> bool" where
  "is_due today r =
     (rt_is_active r = True
      \<and> date_le (rt_next_occurrence r) today
      \<and> (case rt_end_date r of None \<Rightarrow> True | Some e \<Rightarrow> date_le (rt_next_occurrence r) e))"

text \<open>The row of the \<open>INSERT\<close> in the loop body, for the loop record \<open>rec\<close>.\<close>

definition materialize :: "recurring_transaction \<Rightarrow> transaction_row" where
  "materialize rec =
     \<lparr>tx_user_id = rt_user_id rec,
      tx_type = rt_type rec,
      tx_amount = rt_amount rec,
      tx_category = rt_category rec,
      tx_description = (case rt_description rec of Some d \<Rightarrow> d | None \<Rightarrow> rt_name rec),
      tx_date = rt_next_occurrence rec\<rparr>"

text \<open>
  The \<open>UPDATE\<close> in the loop body. For every row whose \<open>id\<close> is that of \<open>rec\<close> the
  calculator is called with the fields of \<open>rec\<close>; the row gets the date it returns, and
  \<open>updated_at = now()\<close>. An error of the calculator is an error of the \<open>UPDATE\<close>.
\<close>

definition next_of :: "date \<Rightarrow> recurring_transaction \<Rightarrow> error + date" where
  "next_of today rec =
     calculate_next_occurrence today (rt_next_occurrence rec) (rt_frequency rec)
       (rt_frequency_value rec)"

definition update_next_occurrence ::
  "date \<Rightarrow> database \<Rightarrow> recurring_transaction \<Rightarrow> int \<Rightarrow> error + database" where
  "update_next_occurrence today db rec now =
     (if list_ex (\<lambda>r. rt_id r = rt_id rec) (public_recurring_transactions db) then
        (case next_of today rec of
           Inl e \<Rightarrow> Inl e
         | Inr d \<Rightarrow>
             Inr (db\<lparr>public_recurring_transactions :=
                       map (\<lambda>r. if rt_id r = rt_id rec
                                 then r\<lparr>rt_next_occurrence := d, rt_updated_at := now\<rparr>
                                 else r)
                           (public_recurring_transactions db)\<rparr>))
      else Inr db)"

text \<open>
  The \<open>FOR rec IN SELECT ... LOOP\<close>: the records are those the query selected when the
  loop started. The body has no exception handler, so an error of the \<open>INSERT\<close> or of the
  \<open>UPDATE\<close> leaves the loop and the function.
\<close>

fun scan_loop ::
  "date \<Rightarrow> int \<Rightarrow> recurring_transaction list \<Rightarrow> database \<Rightarrow> nat \<Rightarrow> error + database \<times> nat" where
  "scan_loop today now [] db processed_count = Inr (db, processed_count)"
| "scan_loop today now (rec # recs) db processed_count =
     (case insert_transaction db (materialize rec) of
        Inl e \<Rightarrow> Inl e
      | Inr db1 \<Rightarrow>
          (case update_next_occurrence today db1 rec now of
             Inl e \<Rightarrow> Inl e
           | Inr db2 \<Rightarrow> scan_loop today now recs db2 (processed_count + 1)))"

definition process_recurring_transactions :: "date \<Rightarrow> int \<Rightarrow> database \<Rightarrow> error + database \<times> nat" where
  "process_recurring_transactions today now db =
     scan_loop today now (filter (is_due today) (public_recurring_transactions db)) db 0"

text \<open>
  A call of the function, as \<open>supabase.rpc('process_recurring_transactions')\<close> makes it,
  is one SQL statement: when the function raises, nothing the statement wrote is kept
  and the caller gets the error; otherwise the caller gets the count.
\<close>

definition rpc_process_recurring_transactions :: "date \<Rightarrow> int \<Rightarrow> database \<Rightarrow> database \<times> (error + nat)" where
  "rpc_process_recurring_transactions today now db =
     (case process_recurring_transactions today now db of
        Inl e \<Rightarrow> (db, Inl e)
      | Inr (db', n) \<Rightarrow> (db', Inr n))"

section \<open>The client hook: transactions and budgets\<close>

text \<open>
  \<open>Transaction\<close> and \<open>Budget\<close> of \<open>types/budget.ts\<close>. Their amounts are of the type
  \<open>number\<close> of the language, double-precision floating point: the type \<open>'n\<close> stands for
  it, and the arithmetic the hook does on it is a parameter of the model. Dates and
  timestamps stay the strings they are on the client.
\<close>

record 'n Transaction =
  t_id :: string
  t_type :: string
  t_amount :: 'n
  t_category :: string
  t_description :: string
  t_date :: string
  t_createdAt :: string

record 'n Budget =
  b_id :: string
  b_category :: string
  b_limit :: 'n
  b_spent :: 'n
  b_period :: string
  b_createdAt :: string

text \<open>
  The two operations on numbers in \<open>deleteTransaction\<close>: the difference \<open>a - b\<close>, and
  \<open>Math.max(0, a)\<close>.
\<close>

record 'n number_operations =
  minus_number :: "'n \<Rightarrow> 'n \<Rightarrow> 'n"
  max_zero :: "'n \<Rightarrow> 'n"

text \<open>
  The part of the hook's state that \<open>deleteTransaction\<close> reads and sets. A call reads
  the state of the render it was made in, taken here to be the current state (one
  action at a time).
\<close>

record 'n hook_state =
  transactions :: "'n Transaction list"
  budgets :: "'n Budget list"

text \<open>
  What a call does besides setting state: the requests it sends to the store, in order,
  and the toast it shows, if any. A request answers with a result object, and the hook
  receives the answers it reads as arguments: the error of the delete, if any, and the
  signed-in user of \<open>auth.getUser\<close> (\<open>None\<close> when there is none).
\<close>

datatype 'n store_call =
    auth_getUser
  | transactions_delete string
  | budgets_update_spent 'n string string

datatype toast = Toast (title: string) (description: string) (destructive: bool)

record 'n outcome =
  state :: "'n hook_state"
  calls :: "'n store_call list"
  shown :: "toast option"

definition deleteTransaction ::
  "'n number_operations \<Rightarrow> 'n hook_state \<Rightarrow> string option \<Rightarrow> string option \<Rightarrow> string \<Rightarrow> 'n outcome" where
  "deleteTransaction number st delete_error user id' =
     (case find (\<lambda>t. t_id t = id') (transactions st) of
        None \<Rightarrow> \<lparr>state = st, calls = [], shown = None\<rparr>
      | Some transaction \<Rightarrow>
          (case delete_error of
             Some message \<Rightarrow>
               \<lparr>state = st, calls = [transactions_delete id'],
                shown = Some (Toast ''Error deleting transaction'' message True)\<rparr>
           | None \<Rightarrow>
               (let st1 = st\<lparr>transactions := filter (\<lambda>t. t_id t \<noteq> id') (transactions st)\<rparr>;
                    deleted = Toast ''Transaction deleted''
                                ''Transaction has been deleted successfully.'' False
                in if t_type transaction = ''expense'' then
                     (case user of
                        None \<Rightarrow>
                          \<lparr>state = st1, calls = [transactions_delete id', auth_getUser],
                           shown = Some deleted\<rparr>
                      | Some user_id \<Rightarrow>
                          (case find (\<lambda>b. b_category b = t_category transaction) (budgets st) of
                             None \<Rightarrow>
                               \<lparr>state = st1, calls = [transactions_delete id', auth_getUser],
                                shown = Some deleted\<rparr>
                           | Some currentBudget \<Rightarrow>
                               (let newSpent = max_zero number
                                      (minus_number number (b_spent currentBudget)
                                         (t_amount transaction))
                                in \<lparr>state = st1\<lparr>budgets :=
                                        map (\<lambda>budget.
                                               if b_category budget = t_category transaction
                                               then budget\<lparr>b_spent := newSpent\<rparr>
                                               else budget)
                                            (budgets st1)\<rparr>,
                                    calls = [transactions_delete id', auth_getUser,
                                             budgets_update_spent newSpent user_id
                                               (t_category transaction)],
                                    shown = Some deleted\<rparr>)))
                   else \<lparr>state = st1, calls = [transactions_delete id'], shown = Some deleted\<rparr>)))"

section \<open>The client hook: recurring templates\<close>


record recurring_updates =
  ru_name :: "string option"
  ru_type :: "string option"
  ru_amount :: "rat option"
  ru_category :: "string option"
  ru_description :: "string option"
  ru_frequency :: "string option"
  ru_frequencyValue :: "int option"
  ru_startDate :: "date option"
  ru_endDate :: "date option"
  ru_isActive :: "bool option"






text \<open>
  \<open>updateRecurringTransaction\<close> copies the fields that are present into the row; the
  table's trigger sets \<open>updated_at\<close>. \<open>next_occurrence\<close> is not among the columns it
  writes.
\<close>

definition apply_updates :: "int \<Rightarrow> recurring_updates \<Rightarrow> recurring_transaction \<Rightarrow> recurring_transaction" where
  "apply_updates now updates r =
     r\<lparr>rt_name := (case ru_name updates of Some v \<Rightarrow> v | None \<Rightarrow> rt_name r),
       rt_type := (case ru_type updates of Some v \<Rightarrow> v | None \<Rightarrow> rt_type r),
       rt_amount := (case ru_amount updates of Some v \<Rightarrow> v | None \<Rightarrow> rt_amount r),
       rt_category := (case ru_category updates of Some v \<Rightarrow> v | None \<Rightarrow> rt_category r),
       rt_description :=
         (case ru_description updates of Some v \<Rightarrow> Some v | None \<Rightarrow> rt_description r),
       rt_frequency := (case ru_frequency updates of Some v \<Rightarrow> v | None \<Rightarrow> rt_frequency r),
       rt_frequency_value :=
         (case ru_frequencyValue updates of Some v \<Rightarrow> v | None \<Rightarrow> rt_frequency_value r),
       rt_start_date := (case ru_startDate updates of Some v \<Rightarrow> v | None \<Rightarrow> rt_start_date r),
       rt_end_date := (case ru_endDate updates of Some v \<Rightarrow> Some v | None \<Rightarrow> rt_end_date r),
       rt_is_active := (case ru_isActive updates of Some v \<Rightarrow> v | None \<Rightarrow> rt_is_active r),
       rt_updated_at := now\<rparr>"




section \<open>Reachable states of the template table\<close>







section \<open>Notions used in the statements\<close>


text \<open>
  The row \<open>r\<close> after the \<open>UPDATE\<close> of the loop body for the record \<open>rec\<close>, and the rows
  of the table after it.
\<close>

definition advance_by ::
  "date \<Rightarrow> recurring_transaction \<Rightarrow> int \<Rightarrow> recurring_transaction \<Rightarrow> recurring_transaction" where
  "advance_by today rec now r =
     (case next_of today rec of
        Inl e \<Rightarrow> r
      | Inr d \<Rightarrow> r\<lparr>rt_next_occurrence := d, rt_updated_at := now\<rparr>)"

definition step_rows ::
  "date \<Rightarrow> int \<Rightarrow> recurring_transaction \<Rightarrow> recurring_transaction list \<Rightarrow> recurring_transaction list" where
  "step_rows today now rec rows =
     map (\<lambda>r. if rt_id r = rt_id rec then advance_by today rec now r else r) rows"


text \<open>
  A template whose transaction the table \<open>transactions\<close> accepts, the row that is then
  stored, and a template that the loop body processes without error on the day
  \<open>today\<close>.
\<close>

definition materializable :: "recurring_transaction \<Rightarrow> bool" where
  "materializable rec =
     (case checked_row (materialize rec) of Inl e \<Rightarrow> False | Inr stored \<Rightarrow> True)"

definition stored_row :: "recurring_transaction \<Rightarrow> transaction_row" where
  "stored_row rec =
     (case checked_row (materialize rec) of Inl e \<Rightarrow> materialize rec | Inr stored \<Rightarrow> stored)"

definition processable :: "date \<Rightarrow> recurring_transaction \<Rightarrow> bool" where
  "processable today rec =
     (materializable rec \<and> (case next_of today rec of Inl e \<Rightarrow> False | Inr d \<Rightarrow> True))"



section \<open>Sample data\<close>

text \<open>
  Templates and tables for the worked examples: a daily template five days behind
  2025-08-01, a template past its end date, a template whose amount does not fit
  \<open>DECIMAL(10,2)\<close>, and a template whose interval takes the next occurrence out of the
  range of the store.
\<close>

definition coffee_template :: recurring_transaction where
  "coffee_template =
     \<lparr>rt_id = ''r1'', rt_user_id = ''u1'', rt_name = ''Coffee'', rt_type = ''expense'',
      rt_amount = 25, rt_category = ''Coffee'', rt_description = None,
      rt_frequency = ''daily'', rt_frequency_value = 1,
      rt_start_date = Date 2025 7 1, rt_end_date = None,
      rt_next_occurrence = Date 2025 7 27, rt_is_active = True,
      rt_created_at = 0, rt_updated_at = 0\<rparr>"

definition ended_template :: recurring_transaction where
  "ended_template =
     \<lparr>rt_id = ''r2'', rt_user_id = ''u1'', rt_name = ''Gym'', rt_type = ''expense'',
      rt_amount = 50, rt_category = ''Healthcare'', rt_description = Some ''Gym membership'',
      rt_frequency = ''monthly'', rt_frequency_value = 1,
      rt_start_date = Date 2025 1 1, rt_end_date = Some (Date 2025 7 31),
      rt_next_occurrence = Date 2025 8 1, rt_is_active = True,
      rt_created_at = 0, rt_updated_at = 0\<rparr>"

definition oversized_template :: recurring_transaction where
  "oversized_template =
     \<lparr>rt_id = ''r3'', rt_user_id = ''u1'', rt_name = ''Buyout'', rt_type = ''income'',
      rt_amount = 100000000, rt_category = ''Investment'', rt_description = None,
      rt_frequency = ''yearly'', rt_frequency_value = 1,
      rt_start_date = Date 2024 8 1, rt_end_date = None,
      rt_next_occurrence = Date 2025 8 1, rt_is_active = True,
      rt_created_at = 0, rt_updated_at = 0\<rparr>"

definition remote_template :: recurring_transaction where
  "remote_template =
     \<lparr>rt_id = ''r4'', rt_user_id = ''u1'', rt_name = ''Jubilee'', rt_type = ''income'',
      rt_amount = 10, rt_category = ''Other Income'', rt_description = None,
      rt_frequency = ''yearly'', rt_frequency_value = 2147483647,
      rt_start_date = Date 2025 8 1, rt_end_date = None,
      rt_next_occurrence = Date 2025 8 1, rt_is_active = True,
      rt_created_at = 0, rt_updated_at = 0\<rparr>"

definition example_database :: database where
  "example_database =
     \<lparr>public_recurring_transactions = [coffee_template, ended_template],
      public_transactions = []\<rparr>"

definition example_scanned :: database where
  "example_scanned =
     \<lparr>public_recurring_transactions =
        [coffee_template\<lparr>rt_next_occurrence := Date 2025 8 2, rt_updated_at := 9\<rparr>,
         ended_template],
      public_transactions =
        [\<lparr>tx_user_id = ''u1'', tx_type = ''expense'', tx_amount = 25, tx_category = ''Coffee'',
          tx_description = ''Coffee'', tx_date = Date 2025 7 27\<rparr>]\<rparr>"

definition failing_database :: database where
  "failing_database =
     \<lparr>public_recurring_transactions = [coffee_template, oversized_template],
      public_transactions = []\<rparr>"

definition overflowing_database :: database where
  "overflowing_database =
     \<lparr>public_recurring_transactions = [coffee_template, remote_template],
      public_transactions = []\<rparr>"












text \<open>
  The hook's state with one expense and one budget of its category; the amounts are
  written as rationals, and the arithmetic is the exact one.
\<close>

definition exact_numbers :: "rat number_operations" where
  "exact_numbers = \<lparr>minus_number = (\<lambda>a b. a - b), max_zero = max 0\<rparr>"

definition groceries :: "rat Transaction" where
  "groceries =
     \<lparr>t_id = ''2'', t_type = ''expense'', t_amount = 500, t_category = ''Food & Dining'',
      t_description = ''Groceries'', t_date = ''2024-01-16'',
      t_createdAt = ''2024-01-16T10:00:00Z''\<rparr>"

definition food_budget :: "rat Budget" where
  "food_budget =
     \<lparr>b_id = ''1'', b_category = ''Food & Dining'', b_limit = 800, b_spent = 300,
      b_period = ''monthly'', b_createdAt = ''2024-01-01T10:00:00Z''\<rparr>"

definition loaded_state :: "rat hook_state" where
  "loaded_state = \<lparr>transactions = [groceries], budgets = [food_budget]\<rparr>"

section \<open>Facts about the calendar\<close>








lemma date_less_irrefl: "\<not> date_less a a"
  by (simp add: date_less_def)





























lemma calculate_other:
  assumes "frequency \<notin> {''daily'', ''weekly'', ''monthly'', ''yearly''}"
  shows "calculate_next_occurrence today d frequency n = Inr d"
  using assms by (simp add: calculate_next_occurrence_def)






section \<open>The occurrence calculator: results\<close>

text \<open>
  Claim C5 says that for every date \<open>d\<close>, each of the four frequencies and every
  interval of at least one, the calculator returns a date strictly after \<open>d\<close>. The four
  branches add the interval to today and not to \<open>d\<close>: called on 2025-08-01 for the
  reference date 2025-09-01 and one week, the function returns 2025-08-08, which is
  before the reference date.
\<close>

theorem calculator_ignores_reference_date:
  "calculate_next_occurrence (Date 2025 8 1) (Date 2025 9 1) ''weekly'' 1 = Inr (Date 2025 8 8)
   \<and> date_less (Date 2025 8 8) (Date 2025 9 1)"
  by (simp add: calculate_next_occurrence_def plus_interval_def in_range_def min_date_def
      max_date_def add_days_def next_day_def days_in_month_def date_le_def date_less_def
      eval_nat_numeral)

text \<open>
  Claim C6 says that monthly and yearly advancement from a reference date gives the
  reference date's day in the target month, or the last day of that month, and that one
  month after 2024-01-31 is 2024-02-29. The month is added to today: called on
  2025-08-01 for the reference date 2024-01-31 and one month, the function returns
  2025-09-01.
\<close>

theorem month_added_to_today:
  "calculate_next_occurrence (Date 2025 8 1) (Date 2024 1 31) ''monthly'' 1 = Inr (Date 2025 9 1)"
  by (simp add: calculate_next_occurrence_def plus_interval_def in_range_def min_date_def
      max_date_def add_months_def days_in_month_def date_le_def date_less_def)

text \<open>
  Claim C3 says that a frequency outside the four is rejected with an
  \<open>InvalidFrequency\<close> error and that the input date is never returned unchanged. The
  function has an \<open>ELSE\<close> branch for such a frequency, which returns the input date: for
  \<open>fortnightly\<close> the date 2025-07-01 comes back as it went in.
\<close>

theorem unknown_frequency_counterexample:
  "calculate_next_occurrence (Date 2025 8 1) (Date 2025 7 1) ''fortnightly'' 1 = Inr (Date 2025 7 1)"
  by (simp add: calculate_next_occurrence_def)

text \<open>
  Claim C3, amended. For every reference date and interval, and on every day, the
  calculator called with a frequency outside daily, weekly, monthly and yearly raises no
  error and returns the reference date unchanged.
\<close>

theorem unknown_frequency_returns_input:
  assumes "frequency \<notin> {''daily'', ''weekly'', ''monthly'', ''yearly''}"
  shows "calculate_next_occurrence today d frequency n = Inr d"
  using assms by (rule calculate_other)

theorem unknown_frequency_returns_input_witness:
  "''fortnightly'' \<notin> {''daily'', ''weekly'', ''monthly'', ''yearly''}
   \<and> calculate_next_occurrence (Date 2025 8 1) (Date 2024 1 31) ''fortnightly'' 2
       = Inr (Date 2024 1 31)"
proof -
  have f: "''fortnightly'' \<notin> {''daily'', ''weekly'', ''monthly'', ''yearly''}" by simp
  show ?thesis using f unknown_frequency_returns_input [OF f, of "Date 2025 8 1" "Date 2024 1 31" 2] by simp
qed




section \<open>The due-template scan: results\<close>

lemma insert_transaction_Inr:
  "insert_transaction db row = Inr db1 \<Longrightarrow>
     \<exists>stored. checked_row row = Inr stored
        \<and> db1 = db\<lparr>public_transactions := public_transactions db @ [stored]\<rparr>"
  by (auto simp: insert_transaction_def split: sum.splits)

lemma insert_transaction_Inl:
  "insert_transaction db row = Inl e \<longleftrightarrow> checked_row row = Inl e"
  by (auto simp: insert_transaction_def split: sum.splits)

lemma rt_id_advance_by [simp]: "rt_id (advance_by today rec now r) = rt_id r"
  by (simp add: advance_by_def split: sum.splits)

lemma ids_step_rows: "map rt_id (step_rows today now rec rows) = map rt_id rows"
  by (induction rows) (simp_all add: step_rows_def)

lemma has_row: "list_ex (\<lambda>r. rt_id r = i) rows \<longleftrightarrow> i \<in> rt_id ` set rows"
  by (auto simp: list_ex_iff)

lemma update_Inr:
  assumes "update_next_occurrence today db rec now = Inr db2"
  shows "public_recurring_transactions db2 = step_rows today now rec (public_recurring_transactions db)"
    and "public_transactions db2 = public_transactions db"
proof -
  show "public_recurring_transactions db2 = step_rows today now rec (public_recurring_transactions db)"
  proof (cases "list_ex (\<lambda>r. rt_id r = rt_id rec) (public_recurring_transactions db)")
    case True
    then show ?thesis using assms
      by (auto simp: update_next_occurrence_def step_rows_def advance_by_def split: sum.splits)
  next
    case False
    then have "\<forall>r\<in>set (public_recurring_transactions db). rt_id r \<noteq> rt_id rec"
      by (simp add: list_ex_iff)
    then have "step_rows today now rec (public_recurring_transactions db) = public_recurring_transactions db"
      by (simp add: step_rows_def map_idI)
    then show ?thesis using assms False by (simp add: update_next_occurrence_def)
  qed
  show "public_transactions db2 = public_transactions db"
    using assms by (auto simp: update_next_occurrence_def split: sum.splits if_splits)
qed

lemma update_Inl:
  "update_next_occurrence today db rec now = Inl e \<longleftrightarrow>
     rt_id rec \<in> rt_id ` set (public_recurring_transactions db) \<and> next_of today rec = Inl e"
  by (auto simp: update_next_occurrence_def has_row split: sum.splits)

lemma materializable_iff: "materializable r \<longleftrightarrow> \<not> isl (checked_row (materialize r))"
  by (simp add: materializable_def split: sum.splits)

lemma materializable_stored: "materializable r \<Longrightarrow> checked_row (materialize r) = Inr (stored_row r)"
  by (simp add: materializable_def stored_row_def split: sum.splits)

lemma processable_iff:
  "processable today r \<longleftrightarrow> \<not> isl (checked_row (materialize r)) \<and> \<not> isl (next_of today r)"
  by (simp add: processable_def materializable_iff split: sum.splits)

lemma scan_loop_Inr:
  "scan_loop today now recs db c = Inr (db', n) \<Longrightarrow>
     public_recurring_transactions db' = fold (step_rows today now) recs (public_recurring_transactions db)
     \<and> n = c + length recs
     \<and> (\<exists>added. public_transactions db' = public_transactions db @ added
           \<and> map Inr added = map (\<lambda>r. checked_row (materialize r)) recs)"
proof (induction recs arbitrary: db c)
  case Nil
  then show ?case by simp
next
  case (Cons rec recs)
  from Cons.prems obtain db1 db2 where
    ins: "insert_transaction db (materialize rec) = Inr db1" and
    upd: "update_next_occurrence today db1 rec now = Inr db2" and
    rest: "scan_loop today now recs db2 (c + 1) = Inr (db', n)"
    by (auto split: sum.splits)
  from insert_transaction_Inr [OF ins] obtain stored where
    st: "checked_row (materialize rec) = Inr stored" and
    db1: "db1 = db\<lparr>public_transactions := public_transactions db @ [stored]\<rparr>"
    by blast
  have rows2: "public_recurring_transactions db2 = step_rows today now rec (public_recurring_transactions db)"
    using update_Inr(1) [OF upd] db1 by simp
  have txs2: "public_transactions db2 = public_transactions db @ [stored]"
    using update_Inr(2) [OF upd] db1 by simp
  from Cons.IH [OF rest] obtain added where
    a: "public_recurring_transactions db' =
          fold (step_rows today now) recs (public_recurring_transactions db2)"
    and b: "n = c + 1 + length recs"
    and c: "public_transactions db' = public_transactions db2 @ added"
    and d: "map Inr added = map (\<lambda>r. checked_row (materialize r)) recs"
    by blast
  have "public_transactions db' = public_transactions db @ (stored # added)"
    using c txs2 by simp
  moreover have "map Inr (stored # added) = map (\<lambda>r. checked_row (materialize r)) (rec # recs)"
    using d st by simp
  ultimately show ?case using a b rows2 by auto
qed

lemma scan_loop_Inl_iff:
  "rt_id ` set recs \<subseteq> rt_id ` set (public_recurring_transactions db) \<Longrightarrow>
   (\<exists>e. scan_loop today now recs db c = Inl e) \<longleftrightarrow> (\<exists>r\<in>set recs. \<not> processable today r)"
proof (induction recs arbitrary: db c)
  case Nil
  then show ?case by simp
next
  case (Cons rec recs)
  show ?case
  proof (cases "checked_row (materialize rec)")
    case (Inl e)
    then show ?thesis by (simp add: insert_transaction_def processable_iff)
  next
    case (Inr stored)
    let ?db1 = "db\<lparr>public_transactions := public_transactions db @ [stored]\<rparr>"
    have ins: "insert_transaction db (materialize rec) = Inr ?db1"
      using Inr by (simp add: insert_transaction_def)
    have mem: "rt_id rec \<in> rt_id ` set (public_recurring_transactions ?db1)"
      using Cons.prems by simp
    show ?thesis
    proof (cases "next_of today rec")
      case (Inl e)
      then have "update_next_occurrence today ?db1 rec now = Inl e"
        using mem by (simp add: update_Inl)
      then show ?thesis using ins Inl by (simp add: processable_iff)
    next
      case next_ok: (Inr d)
      obtain db2 where upd: "update_next_occurrence today ?db1 rec now = Inr db2"
        using next_ok by (cases "update_next_occurrence today ?db1 rec now") (auto simp: update_Inl)
      have "map rt_id (public_recurring_transactions db2) = map rt_id (public_recurring_transactions db)"
        using update_Inr(1) [OF upd] by (simp add: ids_step_rows)
      then have "rt_id ` set (public_recurring_transactions db2) = rt_id ` set (public_recurring_transactions db)"
        by (metis set_map)
      then have sub: "rt_id ` set recs \<subseteq> rt_id ` set (public_recurring_transactions db2)"
        using Cons.prems by simp
      have "processable today rec" using Inr next_ok by (simp add: processable_iff)
      then show ?thesis using ins upd Cons.IH [OF sub, of "c + 1"] by simp
    qed
  qed
qed

lemma fold_step_rows:
  "distinct (map rt_id recs) \<Longrightarrow>
   (\<forall>r\<in>set rows. \<forall>rec\<in>set recs. rt_id r = rt_id rec \<longrightarrow> r = rec) \<Longrightarrow>
   fold (step_rows today now) recs rows
     = map (\<lambda>r. if r \<in> set recs then advance_by today r now r else r) rows"
proof (induction recs arbitrary: rows)
  case Nil
  then show ?case by simp
next
  case (Cons rec recs)
  let ?rows1 = "step_rows today now rec rows"
  have d: "distinct (map rt_id recs)" and nin: "rt_id rec \<notin> rt_id ` set recs"
    using Cons.prems(1) by simp_all
  have h: "\<forall>r\<in>set ?rows1. \<forall>rec'\<in>set recs. rt_id r = rt_id rec' \<longrightarrow> r = rec'"
  proof (intro ballI impI)
    fix r rec' assume r: "r \<in> set ?rows1" and rec': "rec' \<in> set recs" and eq: "rt_id r = rt_id rec'"
    from r obtain r0 where r0: "r0 \<in> set rows"
      and r_def: "r = (if rt_id r0 = rt_id rec then advance_by today rec now r0 else r0)"
      by (auto simp: step_rows_def)
    have ne: "rt_id rec' \<noteq> rt_id rec" using nin rec' by (metis imageI)
    have "rt_id r = rt_id r0" using r_def by simp
    with eq ne have "rt_id r0 \<noteq> rt_id rec" by simp
    with r_def have "r = r0" by simp
    with r0 rec' eq Cons.prems(2) show "r = rec'" by auto
  qed
  have "fold (step_rows today now) (rec # recs) rows = fold (step_rows today now) recs ?rows1" by simp
  also have "\<dots> = map (\<lambda>r. if r \<in> set recs then advance_by today r now r else r) ?rows1"
    by (rule Cons.IH [OF d h])
  also have "\<dots> = map (\<lambda>r. if r \<in> set (rec # recs) then advance_by today r now r else r) rows"
  proof -
    have "(if (if rt_id r = rt_id rec then advance_by today rec now r else r) \<in> set recs
            then advance_by today (if rt_id r = rt_id rec then advance_by today rec now r else r) now
                   (if rt_id r = rt_id rec then advance_by today rec now r else r)
            else (if rt_id r = rt_id rec then advance_by today rec now r else r))
          = (if r \<in> set (rec # recs) then advance_by today r now r else r)" if r: "r \<in> set rows" for r
    proof (cases "rt_id r = rt_id rec")
      case True
      with r Cons.prems(2) have "r = rec" by auto
      moreover have "advance_by today rec now rec \<notin> set recs"
      proof
        assume "advance_by today rec now rec \<in> set recs"
        then have "rt_id (advance_by today rec now rec) \<in> rt_id ` set recs" by (rule imageI)
        with nin show False by simp
      qed
      ultimately show ?thesis by simp
    next
      case False
      then have "r \<noteq> rec" by auto
      with False show ?thesis by simp
    qed
    then show ?thesis by (simp add: step_rows_def)
  qed
  finally show ?case .
qed

lemma fold_step_rows_filter:
  assumes "distinct (map rt_id rows)"
  shows "fold (step_rows today now) (filter P rows) rows
           = map (\<lambda>r. if P r then advance_by today r now r else r) rows"
proof -
  have d: "distinct (map rt_id (filter P rows))" using assms by (rule distinct_map_filter)
  have inj: "inj_on rt_id (set rows)" using assms by (simp add: distinct_map)
  have h: "\<forall>r\<in>set rows. \<forall>rec\<in>set (filter P rows). rt_id r = rt_id rec \<longrightarrow> r = rec"
    using inj by (auto dest: inj_onD)
  have "fold (step_rows today now) (filter P rows) rows
          = map (\<lambda>r. if r \<in> set (filter P rows) then advance_by today r now r else r) rows"
    by (rule fold_step_rows [OF d h])
  also have "\<dots> = map (\<lambda>r. if P r then advance_by today r now r else r) rows" by simp
  finally show ?thesis .
qed

lemma process_Inl_iff:
  "(\<exists>e. process_recurring_transactions today now db = Inl e) \<longleftrightarrow>
     \<not> list_all (processable today) (filter (is_due today) (public_recurring_transactions db))"
proof -
  have "rt_id ` set (filter (is_due today) (public_recurring_transactions db))
          \<subseteq> rt_id ` set (public_recurring_transactions db)" by auto
  then show ?thesis
    unfolding process_recurring_transactions_def by (simp add: scan_loop_Inl_iff list_all_iff)
qed

lemma process_Inr:
  assumes "distinct (map rt_id (public_recurring_transactions db))"
    and "process_recurring_transactions today now db = Inr (db', n)"
  shows "public_recurring_transactions db' =
           map (\<lambda>r. if is_due today r then advance_by today r now r else r)
               (public_recurring_transactions db)"
    and "n = length (filter (is_due today) (public_recurring_transactions db))"
    and "\<exists>added. public_transactions db' = public_transactions db @ added
           \<and> map Inr added = map (\<lambda>r. checked_row (materialize r))
                                (filter (is_due today) (public_recurring_transactions db))"
    and "list_all (processable today) (filter (is_due today) (public_recurring_transactions db))"
proof -
  note s = scan_loop_Inr [OF assms(2) [unfolded process_recurring_transactions_def]]
  show "public_recurring_transactions db' =
           map (\<lambda>r. if is_due today r then advance_by today r now r else r)
               (public_recurring_transactions db)"
    using s fold_step_rows_filter [OF assms(1)] by simp
  show "n = length (filter (is_due today) (public_recurring_transactions db))" using s by simp
  show "\<exists>added. public_transactions db' = public_transactions db @ added
           \<and> map Inr added = map (\<lambda>r. checked_row (materialize r))
                                (filter (is_due today) (public_recurring_transactions db))"
    using s by simp
  show "list_all (processable today) (filter (is_due today) (public_recurring_transactions db))"
    using process_Inl_iff [of today now db] assms(2) by auto
qed

lemma process_transactions:
  assumes "distinct (map rt_id (public_recurring_transactions db))"
    and "process_recurring_transactions today now db = Inr (db', n)"
  shows "public_transactions db' =
           public_transactions db
             @ map stored_row (filter (is_due today) (public_recurring_transactions db))"
proof -
  let ?due = "filter (is_due today) (public_recurring_transactions db)"
  from process_Inr(3) [OF assms] obtain added where
    a: "public_transactions db' = public_transactions db @ added"
    and m: "map Inr added = map (\<lambda>r. checked_row (materialize r)) ?due" by blast
  have all: "\<forall>r\<in>set ?due. checked_row (materialize r) = Inr (stored_row r)"
    using process_Inr(4) [OF assms] by (simp add: list_all_iff processable_def materializable_stored)
  have "map Inr (map stored_row ?due) = map (\<lambda>r. checked_row (materialize r)) ?due"
    unfolding map_map using all by (intro map_cong) auto
  also have "\<dots> = map Inr added" using m by (rule sym)
  finally have "map stored_row ?due = added" by (metis inj_Inr inj_map_eq_map)
  then have "added = map stored_row ?due" by (rule sym)
  with a show ?thesis by simp
qed

lemma floor_rat_numeral: "\<lfloor>numeral a / numeral b :: rat\<rfloor> = numeral a div numeral b"
  using floor_divide_of_int_eq [of "numeral a" "numeral b", where ?'a = rat] by simp


lemmas eval_defs = floor_rat_numeral process_recurring_transactions_def is_due_def date_le_def
  date_less_def materialize_def insert_transaction_def checked_row_def decimal_10_2_def
  round_half_away_def update_next_occurrence_def next_of_def calculate_next_occurrence_def
  plus_interval_def in_range_def min_date_def max_date_def add_days_def add_months_def
  next_day_def days_in_month_def isleap_def eval_nat_numeral

lemma example_scan:
  "process_recurring_transactions (Date 2025 8 1) 9 example_database = Inr (example_scanned, 1)"
  by (simp add: eval_defs example_database_def example_scanned_def coffee_template_def
      ended_template_def)

lemma example_distinct: "distinct (map rt_id (public_recurring_transactions example_database))"
  by (simp add: example_database_def coffee_template_def ended_template_def)


text \<open>
  Claim C1 says that a due template's new next occurrence is the calculator's result for
  its current next occurrence, not for today's date, so that a template several cycles
  behind advances by one cycle. The scan does pass the template's next occurrence to the
  calculator, but the calculator adds the interval to today: scanned on 2025-08-01, the
  daily coffee template, due since 2025-07-27, gets the next occurrence 2025-08-02 and
  not 2025-07-28.
\<close>

theorem scan_advances_from_today:
  "rt_next_occurrence coffee_template = Date 2025 7 27
   \<and> is_due (Date 2025 8 1) coffee_template
   \<and> process_recurring_transactions (Date 2025 8 1) 9 example_database = Inr (example_scanned, 1)
   \<and> public_recurring_transactions example_scanned =
       [coffee_template\<lparr>rt_next_occurrence := Date 2025 8 2, rt_updated_at := 9\<rparr>, ended_template]"
  using example_scan
  by (simp add: example_scanned_def coffee_template_def is_due_def date_le_def date_less_def)



text \<open>
  Claim C4 says that a failure on one template leaves the other due templates of the
  scan processed. The loop has no exception handler and the call is one statement: with
  the coffee template (due, and processed without error) ahead of a template whose
  amount overflows \<open>DECIMAL(10,2)\<close>, the call returns the error and the tables are as
  before, the coffee template included.
\<close>

theorem scan_failure_counterexample:
  "is_due (Date 2025 8 1) coffee_template \<and> processable (Date 2025 8 1) coffee_template
   \<and> rpc_process_recurring_transactions (Date 2025 8 1) 9 failing_database
       = (failing_database, Inl NumericValueOutOfRange)"
  by (simp add: rpc_process_recurring_transactions_def processable_def materializable_def eval_defs
      failing_database_def coffee_template_def oversized_template_def)

text \<open>
  The same happens when it is the \<open>UPDATE\<close> that fails: the calculator raises for a
  template whose interval takes the sum out of the range of the store.
\<close>

lemma overflowing_scan:
  "materializable remote_template
   \<and> rpc_process_recurring_transactions (Date 2025 8 1) 9 overflowing_database
       = (overflowing_database, Inl DatetimeFieldOverflow)"
  by (simp add: rpc_process_recurring_transactions_def materializable_def eval_defs
      overflowing_database_def coffee_template_def remote_template_def)

lemma failing_distinct: "distinct (map rt_id (public_recurring_transactions failing_database))"
  by (simp add: failing_database_def coffee_template_def oversized_template_def)

text \<open>
  Claim C4, amended. A scan is all or nothing. When the loop body processes every due
  template without error (its transaction is acceptable to \<open>transactions\<close> and the
  calculator returns a date for it), the call returns the number of due templates, and
  the store is then as it was, but for every due template advanced and the transaction
  of every due template added. When the loop body fails on some due template, the call
  returns an error instead of a count and leaves the store as it was before the call: no
  template of that scan stays processed, and no failure is reported per template.
\<close>

theorem scan_is_all_or_nothing:
  assumes "distinct (map rt_id (public_recurring_transactions db))"
  shows "(list_all (processable today) (filter (is_due today) (public_recurring_transactions db)) \<longrightarrow>
      rpc_process_recurring_transactions today now db =
        (db\<lparr>public_recurring_transactions :=
               map (\<lambda>r. if is_due today r then advance_by today r now r else r)
                   (public_recurring_transactions db),
            public_transactions :=
               public_transactions db
                 @ map stored_row (filter (is_due today) (public_recurring_transactions db))\<rparr>,
         Inr (length (filter (is_due today) (public_recurring_transactions db)))))
   \<and> (\<not> list_all (processable today) (filter (is_due today) (public_recurring_transactions db)) \<longrightarrow>
      (\<exists>e. rpc_process_recurring_transactions today now db = (db, Inl e)))"
proof (intro conjI impI)
  let ?due = "filter (is_due today) (public_recurring_transactions db)"
  assume "list_all (processable today) ?due"
  with process_Inl_iff [of today now db] obtain db' n where
    r: "process_recurring_transactions today now db = Inr (db', n)"
    by (cases "process_recurring_transactions today now db") auto
  have "db' = db\<lparr>public_recurring_transactions :=
               map (\<lambda>r. if is_due today r then advance_by today r now r else r)
                   (public_recurring_transactions db),
            public_transactions := public_transactions db @ map stored_row ?due\<rparr>"
    using process_Inr(1) [OF assms r] process_transactions [OF assms r] by simp
  moreover have "n = length ?due" using assms r by (rule process_Inr(2))
  ultimately show "rpc_process_recurring_transactions today now db =
        (db\<lparr>public_recurring_transactions :=
               map (\<lambda>r. if is_due today r then advance_by today r now r else r)
                   (public_recurring_transactions db),
            public_transactions := public_transactions db @ map stored_row ?due\<rparr>,
         Inr (length ?due))"
    using r by (simp add: rpc_process_recurring_transactions_def)
next
  assume "\<not> list_all (processable today) (filter (is_due today) (public_recurring_transactions db))"
  with process_Inl_iff [of today now db] obtain e where
    "process_recurring_transactions today now db = Inl e" by blast
  then show "\<exists>e. rpc_process_recurring_transactions today now db = (db, Inl e)"
    by (simp add: rpc_process_recurring_transactions_def)
qed

theorem scan_is_all_or_nothing_witness:
  "distinct (map rt_id (public_recurring_transactions example_database))
   \<and> list_all (processable (Date 2025 8 1))
       (filter (is_due (Date 2025 8 1)) (public_recurring_transactions example_database))
   \<and> rpc_process_recurring_transactions (Date 2025 8 1) 9 example_database
       = (example_scanned, Inr 1)
   \<and> distinct (map rt_id (public_recurring_transactions failing_database))
   \<and> \<not> list_all (processable (Date 2025 8 1))
         (filter (is_due (Date 2025 8 1)) (public_recurring_transactions failing_database))
   \<and> (\<exists>e. rpc_process_recurring_transactions (Date 2025 8 1) 9 failing_database
             = (failing_database, Inl e))"
proof -
  have y: "list_all (processable (Date 2025 8 1))
     (filter (is_due (Date 2025 8 1)) (public_recurring_transactions example_database))"
    by (simp add: processable_def materializable_def eval_defs example_database_def
        coffee_template_def ended_template_def)
  have n: "\<not> list_all (processable (Date 2025 8 1))
         (filter (is_due (Date 2025 8 1)) (public_recurring_transactions failing_database))"
    by (simp add: processable_def materializable_def eval_defs failing_database_def
        coffee_template_def oversized_template_def)
  have s: "rpc_process_recurring_transactions (Date 2025 8 1) 9 example_database
       = (example_scanned, Inr 1)"
    by (simp add: rpc_process_recurring_transactions_def example_scan)
  have "\<exists>e. rpc_process_recurring_transactions (Date 2025 8 1) 9 failing_database
             = (failing_database, Inl e)"
    using n scan_is_all_or_nothing [OF failing_distinct, of "Date 2025 8 1" 9] by blast
  moreover have "rpc_process_recurring_transactions (Date 2025 8 1) 9 example_database =
        (example_database\<lparr>public_recurring_transactions :=
               map (\<lambda>r. if is_due (Date 2025 8 1) r then advance_by (Date 2025 8 1) r 9 r else r)
                   (public_recurring_transactions example_database),
            public_transactions :=
               public_transactions example_database
                 @ map stored_row (filter (is_due (Date 2025 8 1))
                                     (public_recurring_transactions example_database))\<rparr>,
         Inr (length (filter (is_due (Date 2025 8 1))
                        (public_recurring_transactions example_database))))"
    using y scan_is_all_or_nothing [OF example_distinct, of "Date 2025 8 1" 9] by blast
  ultimately show ?thesis using y n s example_distinct failing_distinct by blast
qed

section \<open>Transactions in the hook: results\<close>

lemma find_None_iff_id: "find (\<lambda>t. t_id t = i) ts = None \<longleftrightarrow> i \<notin> t_id ` set ts"
  by (induction ts) auto

text \<open>
  Claim C10. \<open>deleteTransaction\<close> called with an \<open>id\<close> that no transaction of the loaded
  list has sends no request to the store, leaves the state (the list and every budget)
  as it is, and shows no toast, neither of success nor of error.
\<close>

theorem delete_missing_is_noop:
  assumes "i \<notin> set (map t_id (transactions st))"
  shows "deleteTransaction number st delete_error user i = \<lparr>state = st, calls = [], shown = None\<rparr>"
proof -
  have "find (\<lambda>t. t_id t = i) (transactions st) = None"
    using assms by (simp add: find_None_iff_id)
  then show ?thesis by (simp add: deleteTransaction_def)
qed

theorem delete_missing_is_noop_witness:
  "''9'' \<notin> set (map t_id (transactions loaded_state))
   \<and> deleteTransaction exact_numbers loaded_state None (Some ''user-1'') ''9''
       = \<lparr>state = loaded_state, calls = [], shown = None\<rparr>"
proof -
  have n: "''9'' \<notin> set (map t_id (transactions loaded_state))"
    by (simp add: loaded_state_def groceries_def)
  show ?thesis using n delete_missing_is_noop [OF n] by simp
qed

section \<open>The invariant of the template table: results\<close>




lemma rt_id_apply_updates [simp]: "rt_id (apply_updates now updates r) = rt_id r"
  by (simp add: apply_updates_def)
























end
